theory Spec2Isabelle
  imports
    Main
    "HOL-Library.Finite_Map"
    "HOL-Library.AList"
    "HOL-Library.Char_ord"
    "HOL-Library.List_Lexorder"
begin

section \<open>JavaScript strings, sets and objects\<close>

text \<open>
  Reference keys are JavaScript strings. They are modelled as HOL strings, one
  \<^typ>\<open>char\<close> per code unit below 256 (Latin-1); the default order on strings
  (\<open>Array.prototype.sort\<close> without a comparator) is the lexicographic order on
  code units, which is the order of \<open>List_Lexorder\<close> over \<open>Char_ord\<close>.
\<close>

definition isWhiteSpace :: "char \<Rightarrow> bool" where
  \<comment> \<open>WhiteSpace and LineTerminator code points below 256: TAB, LF, VT, FF, CR, SP, NBSP\<close>
  "isWhiteSpace c = (of_char c \<in> {9, 10, 11, 12, 13, 32, 160 :: nat})"

definition trim :: "string \<Rightarrow> string" where
  "trim s = rev (dropWhile isWhiteSpace (rev (dropWhile isWhiteSpace s)))"

definition startsWith :: "string \<Rightarrow> string \<Rightarrow> bool" where
  "startsWith s p = (take (length p) s = p)"

definition lowerChar :: "char \<Rightarrow> char" where
  \<comment> \<open>A-Z, and the Latin-1 capitals 0xC0-0xDE except the multiplication sign 0xD7\<close>
  "lowerChar c =
     (let n = (of_char c :: nat) in
      if (65 \<le> n \<and> n \<le> 90) \<or> (192 \<le> n \<and> n \<le> 222 \<and> n \<noteq> 215)
      then char_of (n + 32) else c)"

definition toLowerCase :: "string \<Rightarrow> string" where
  "toLowerCase s = map lowerChar s"

fun join :: "string \<Rightarrow> string list \<Rightarrow> string" where
  "join sep [] = []"
| "join sep [x] = x"
| "join sep (x # y # ys) = x @ sep @ join sep (y # ys)"

text \<open>
  A JavaScript \<open>Set\<close> keeps its elements in insertion order and ignores the
  insertion of an element it already has. \<open>new_Set xs\<close> is
  \<open>[...new Set(xs)]\<close>: the first occurrences of \<open>xs\<close>, in order.
\<close>

definition Set_add :: "'a list \<Rightarrow> 'a \<Rightarrow> 'a list" where
  "Set_add s x = (if x \<in> set s then s else s @ [x])"

definition new_Set :: "'a list \<Rightarrow> 'a list" where
  "new_Set xs = foldl Set_add [] xs"

text \<open>
  A JavaScript \<open>Map\<close> is an association list in insertion order:
  \<open>Map_set\<close> replaces the value of a key in place or appends the key.
\<close>

definition Map_has :: "('k \<times> 'v) list \<Rightarrow> 'k \<Rightarrow> bool" where
  "Map_has m k = (map_of m k \<noteq> None)"

definition Map_get :: "('k \<times> 'v) list \<Rightarrow> 'k \<Rightarrow> 'v option" where
  "Map_get m k = map_of m k"

definition Map_set :: "('k \<times> 'v) list \<Rightarrow> 'k \<Rightarrow> 'v \<Rightarrow> ('k \<times> 'v) list" where
  "Map_set m k v = AList.update k v m"

definition Map_values :: "('k \<times> 'v) list \<Rightarrow> 'v list" where
  "Map_values m = map snd m"

section \<open>core/biblio: splitting the keys by source\<close>

text \<open>
  The first three constants of \<open>updateFromNetwork(refs, options)\<close>:
  \<^verbatim>\<open>
  const refsToFetch = [...new Set(refs)].filter(ref => ref.trim());
  const specrefIds = refsToFetch.filter(ref => !ref.startsWith("doi:"));
  const crossrefIds = refsToFetch.filter(ref => ref.startsWith("doi:"));
  \<close>
  A string is truthy when it is not empty.
\<close>

definition refsToFetch :: "string list \<Rightarrow> string list" where
  "refsToFetch refs = filter (\<lambda>ref. trim ref \<noteq> []) (new_Set refs)"

definition specrefIds :: "string list \<Rightarrow> string list" where
  "specrefIds refs = filter (\<lambda>ref. \<not> startsWith ref ''doi:'') (refsToFetch refs)"

definition crossrefIds :: "string list \<Rightarrow> string list" where
  "crossrefIds refs = filter (\<lambda>ref. startsWith ref ''doi:'') (refsToFetch refs)"

section \<open>core/biblio: data, environment and state\<close>

text \<open>
  An exception is a value: every function that can throw returns
  \<open>error + 'a\<close>, with \<open>Inl\<close> for the exception, next to the state it leaves.
\<close>

datatype error =
  ReferenceError string
  | TypeError string
  | SyntaxError string
  | NetworkError string
  | DatabaseError string

text \<open>
  A bibliographic entry (\<open>BiblioData\<close>) with the properties the code reads or
  writes: \<open>aliasOf\<close>, \<open>id\<close> (written \<open>id'\<close> here), \<open>DOI\<close>, \<open>reference\<close>, and a
  title standing for the rest. \<open>None\<close> is an absent property. The values are
  strings, as the entry types declare them, and a string is truthy when it is
  not empty.
\<close>

record biblioData =
  aliasOf :: "string option"
  id' :: "string option"
  DOI :: "string option"
  reference :: "string list option"
  title :: "string option"

definition truthy :: "string option \<Rightarrow> bool" where
  "truthy v = (case v of None \<Rightarrow> False | Some s \<Rightarrow> s \<noteq> [])"

text \<open>
  The store (\<open>Conf['biblio']\<close>) is an object from keys to entries; its property
  order is never observed, so it is a finite map. Keys are assumed not to be
  property names of \<open>Object.prototype\<close>. The local table \<open>conf.localBiblio\<close>
  is enumerated by \<open>Object.keys\<close>, so it is an association list in property
  order, read with \<^const>\<open>map_of\<close>.
\<close>

type_synonym biblio = "(string, biblioData) fmap"

type_synonym localBiblio = "(string \<times> biblioData) list"

definition hasOwnProperty :: "localBiblio \<Rightarrow> string \<Rightarrow> bool" where
  "hasOwnProperty obj key = (map_of obj key \<noteq> None)"

definition Object_keys :: "localBiblio \<Rightarrow> string list" where
  "Object_keys obj = map fst obj"

definition Object_assign :: "biblio \<Rightarrow> localBiblio \<Rightarrow> biblio" where
  "Object_assign target source = target ++\<^sub>f fmap_of_list source"

definition spread :: "biblio option \<Rightarrow> biblio" where
  \<comment> \<open>\<open>{...x}\<close>: the properties of an object, none for \<open>null\<close>\<close>
  "spread x = (case x of None \<Rightarrow> fmempty | Some obj \<Rightarrow> obj)"

text \<open>
  A \<open>Response\<close> of \<open>fetch\<close>: \<open>ok\<close> and \<open>status\<close> are independent fields, the
  header names are lower-cased by the \<open>Headers\<close> object, and \<open>json\<close> is the
  outcome of \<open>await response.json()\<close>, which rejects when the body is not JSON.
  The Crossref body is read as \<open>data.message.items.reduce(...)\<close>, with
  \<open>item.DOI\<close> read of every item. \<open>message = None\<close> is a body whose
  \<open>data.message\<close> is \<open>undefined\<close> or \<open>null\<close>, or that is \<open>null\<close> itself: reading
  \<open>.items\<close> (or \<open>.message\<close>) throws. \<open>NotAnArray\<close> is an \<open>items\<close> that is missing,
  \<open>null\<close> or any value other than an array: it has no \<open>reduce\<close> to call. In
  \<open>Items its\<close> an element \<open>None\<close> is the item \<open>null\<close>, of which \<open>.DOI\<close> cannot be
  read; an item that is a number, a string or an array has no \<open>DOI\<close> and is an
  entry without one.
\<close>

record 'd response =
  ok :: bool
  status :: nat
  headers :: "string \<rightharpoonup> string"
  json :: "error + 'd"

datatype items_value = Items "biblioData option list" | NotAnArray

record crossref_message =
  items :: items_value

record crossref_data =
  message :: "crossref_message option"

definition headers_has :: "'d response \<Rightarrow> string \<Rightarrow> bool" where
  "headers_has r n = (headers r (toLowerCase n) \<noteq> None)"

definition headers_get :: "'d response \<Rightarrow> string \<Rightarrow> string option" where
  "headers_get r n = headers r (toLowerCase n)"

text \<open>
  What the module reads from its surroundings. The one \<open>fetch\<close> of the browser
  is split by endpoint, so that each body has the type its adapter assumes.
  \<open>idb_ready\<close>, \<open>idb_find\<close> and \<open>idb_addAll\<close> are the imported \<open>biblioDB\<close>
  (\<open>./biblio-db.js\<close>), each of which may reject. \<open>Date_parse\<close> yields \<open>None\<close>
  for \<open>NaN\<close>. An identifier that no enclosing scope of the module declares is
  looked up on the global object: \<open>global_response\<close> and
  \<open>global_oneHourFromNow\<close> are the global object's bindings of \<open>response\<close> and
  \<open>oneHourFromNow\<close>, \<open>None\<close> when it has none, as in a browser.
\<close>

record world =
  onLine :: bool
  now :: int
  fetch_specref :: "string \<Rightarrow> error + biblio response"
  fetch_crossref :: "string \<Rightarrow> error + crossref_data response"
  Date_parse :: "string \<Rightarrow> int option"
  idb_ready :: "error option"
  idb_find :: "string \<Rightarrow> error + biblioData option"
  idb_addAll :: "biblio \<Rightarrow> int option \<Rightarrow> error option"
  global_response :: "biblio response option"
  global_oneHourFromNow :: "int option"

datatype logged = Thrown error | Message string

datatype console_entry = Console_error logged | Console_warn logged

text \<open>
  What the module changes: the module-level object \<open>biblio\<close>, the promise
  \<open>done\<close> (it resolves to that same object, so a flag is enough), the console
  and the batches stored by \<open>biblioDB.addAll\<close>, each with its expiry.
\<close>

record state =
  biblio :: biblio
  done_resolved :: bool
  console :: "console_entry list"
  idb_batches :: "(biblio \<times> int option) list"

definition log :: "console_entry \<Rightarrow> state \<Rightarrow> state" where
  "log e st = st\<lparr>console := console st @ [e]\<rparr>"

definition bibrefsURL :: string where
  "bibrefsURL = ''https://api.specref.org/bibrefs?refs=''"

definition crossrefURL :: string where
  "crossrefURL = ''https://api.crossref.org/works?filter=''"

section \<open>core/biblio: the two source adapters\<close>

text \<open>
  \<^verbatim>\<open>
  export async function updateFromSpecref(refsToFetch, options = { forceUpdate: false }) {
    if (!refsToFetch.length || navigator.onLine === false) { return null; }
    let response;
    const oneHourFromNow = Date.now() + 1000 * 60 * 60 * 1;
    try { response = await fetch(bibrefsURL.href + refsToFetch.join(",")); }
    catch (err) { console.error(err); return null; }
    if ((!options.forceUpdate && !response.ok) || response.status !== 200) { return null; }
    const data = await response.json();
    return data;
  }
  \<close>
  \<open>response\<close> and \<open>oneHourFromNow\<close> are local to this function.
\<close>

definition oneHourFromNow :: "world \<Rightarrow> int" where
  "oneHourFromNow w = now w + 1000 * 60 * 60 * 1"

definition updateFromSpecref ::
  "world \<Rightarrow> string list \<Rightarrow> bool \<Rightarrow> state \<Rightarrow> (error + biblio option) \<times> state" where
  "updateFromSpecref w ids forceUpdate st =
     (if ids = [] \<or> \<not> onLine w then (Inr None, st)
      else
        (case fetch_specref w (bibrefsURL @ join '','' ids) of
           Inl err \<Rightarrow> (Inr None, log (Console_error (Thrown err)) st)
         | Inr r \<Rightarrow>
             if (\<not> forceUpdate \<and> \<not> ok r) \<or> status r \<noteq> 200 then (Inr None, st)
             else
               (case json r of
                  Inl err \<Rightarrow> (Inl err, st)
                | Inr d \<Rightarrow> (Inr (Some d), st))))"

text \<open>
  \<^verbatim>\<open>
  export async function updateFromCrossref(refsToFetch) {
    if (!refsToFetch.length || navigator.onLine === false) { return null; }
    let response;
    try { response = await fetch(crossrefURL.href + refsToFetch.join(",")); }
    catch (err) { console.error(err); return null; }
    const data = await response.json();
    const keyToMetadata = data.message.items.reduce((collector, item) => {
      if (item.DOI) {
        const id = `doi:${item.DOI}`;
        item.id = id;
        delete item.reference;
        collector[id] = item;
      } else {
        console.error("Invalid DOI metadata returned by Crossref");
      }
      return collector;
    }, {});
    return keyToMetadata;
  }
  \<close>
  The callback of \<open>reduce\<close> is \<open>collectItem\<close>; it carries the console along,
  and throws on the item \<open>null\<close>. \<open>reduce_collectItem\<close> is the \<open>reduce\<close> with
  this callback: it stops at the first item on which the callback throws.
\<close>

definition invalidDOI :: console_entry where
  "invalidDOI = Console_error (Message ''Invalid DOI metadata returned by Crossref'')"

definition collectItem ::
  "biblio \<times> console_entry list \<Rightarrow> biblioData option
   \<Rightarrow> (error + biblio) \<times> console_entry list" where
  "collectItem acc item =
     (case acc of (collector, out) \<Rightarrow>
        (case item of
           None \<Rightarrow> (Inl (TypeError ''item is null''), out)
         | Some entry \<Rightarrow>
             (case DOI entry of
                None \<Rightarrow> (Inr collector, out @ [invalidDOI])
              | Some d \<Rightarrow>
                  if d \<noteq> [] then
                    (let i = ''doi:'' @ d
                     in (Inr (fmupd i (entry\<lparr>id' := Some i, reference := None\<rparr>) collector), out))
                  else (Inr collector, out @ [invalidDOI]))))"

fun reduce_collectItem ::
  "biblio \<times> console_entry list \<Rightarrow> biblioData option list
   \<Rightarrow> (error + biblio) \<times> console_entry list" where
  "reduce_collectItem (collector, out) [] = (Inr collector, out)"
| "reduce_collectItem (collector, out) (item # rest) =
     (case collectItem (collector, out) item of
        (Inl err, out1) \<Rightarrow> (Inl err, out1)
      | (Inr collector1, out1) \<Rightarrow> reduce_collectItem (collector1, out1) rest)"

definition updateFromCrossref ::
  "world \<Rightarrow> string list \<Rightarrow> state \<Rightarrow> (error + biblio option) \<times> state" where
  "updateFromCrossref w ids st =
     (if ids = [] \<or> \<not> onLine w then (Inr None, st)
      else
        (case fetch_crossref w (crossrefURL @ join '','' ids) of
           Inl err \<Rightarrow> (Inr None, log (Console_error (Thrown err)) st)
         | Inr r \<Rightarrow>
             (case json r of
                Inl err \<Rightarrow> (Inl err, st)
              | Inr d \<Rightarrow>
                  (case message d of
                     None \<Rightarrow> (Inl (TypeError ''data.message is undefined''), st)
                   | Some m \<Rightarrow>
                       (case items m of
                          NotAnArray \<Rightarrow>
                            (Inl (TypeError ''data.message.items.reduce is not a function''), st)
                        | Items its \<Rightarrow>
                            (case reduce_collectItem (fmempty, console st) its of
                               (Inl err, out) \<Rightarrow> (Inl err, st\<lparr>console := out\<rparr>)
                             | (Inr keyToMetadata, out) \<Rightarrow>
                                 (Inr (Some keyToMetadata), st\<lparr>console := out\<rparr>)))))))"

section \<open>core/biblio: fetching from the network\<close>

text \<open>
  \<^verbatim>\<open>
  export async function updateFromNetwork(refs, options = { forceUpdate: false }) {
    const refsToFetch = ...; const specrefIds = ...; const crossrefIds = ...;
    const specrefData = await updateFromSpecref(specrefIds, options);
    const crossrefData = await updateFromCrossref(crossrefIds);
    const data = { ...specrefData, ...crossrefData };
    const expires = response.headers.has("Expires")
      ? Math.min(Date.parse(response.headers.get("Expires")), oneHourFromNow)
      : oneHourFromNow;
    try { await biblioDB.addAll(data, expires); } catch (err) { console.error(err); }
    return data;
  }
  \<close>
  Neither \<open>response\<close> nor \<open>oneHourFromNow\<close> is declared in this function or at
  module level (they are locals of \<open>updateFromSpecref\<close>), so both are read from
  the global object, and reading an identifier that is bound nowhere throws a
  \<open>ReferenceError\<close>. \<open>Math.min\<close> yields \<open>NaN\<close> when an argument is \<open>NaN\<close>.
\<close>

definition Math_min :: "int option \<Rightarrow> int option \<Rightarrow> int option" where
  "Math_min a b =
     (case a of None \<Rightarrow> None | Some x \<Rightarrow> (case b of None \<Rightarrow> None | Some y \<Rightarrow> Some (min x y)))"

definition expires :: "world \<Rightarrow> error + int option" where
  "expires w =
     (case global_response w of
        None \<Rightarrow> Inl (ReferenceError ''response is not defined'')
      | Some r \<Rightarrow>
          if headers_has r ''Expires'' then
            (case global_oneHourFromNow w of
               None \<Rightarrow> Inl (ReferenceError ''oneHourFromNow is not defined'')
             | Some h \<Rightarrow>
                 Inr (Math_min (Option.bind (headers_get r ''Expires'') (Date_parse w)) (Some h)))
          else
            (case global_oneHourFromNow w of
               None \<Rightarrow> Inl (ReferenceError ''oneHourFromNow is not defined'')
             | Some h \<Rightarrow> Inr (Some h)))"

definition addAll :: "world \<Rightarrow> biblio \<Rightarrow> int option \<Rightarrow> state \<Rightarrow> state" where
  \<comment> \<open>\<open>try { await biblioDB.addAll(data, expires); } catch (err) { console.error(err); }\<close>\<close>
  "addAll w d e st =
     (case idb_addAll w d e of
        Some err \<Rightarrow> log (Console_error (Thrown err)) st
      | None \<Rightarrow> st\<lparr>idb_batches := idb_batches st @ [(d, e)]\<rparr>)"

definition updateFromNetwork ::
  "world \<Rightarrow> string list \<Rightarrow> bool \<Rightarrow> state \<Rightarrow> (error + biblio) \<times> state" where
  "updateFromNetwork w refs forceUpdate st =
     (case updateFromSpecref w (specrefIds refs) forceUpdate st of
        (Inl err, st1) \<Rightarrow> (Inl err, st1)
      | (Inr specrefData, st1) \<Rightarrow>
          (case updateFromCrossref w (crossrefIds refs) st1 of
             (Inl err, st2) \<Rightarrow> (Inl err, st2)
           | (Inr crossrefData, st2) \<Rightarrow>
               (let d = spread specrefData ++\<^sub>f spread crossrefData
                in (case expires w of
                      Inl err \<Rightarrow> (Inl err, st2)
                    | Inr e \<Rightarrow> (Inr d, addAll w d e st2)))))"

section \<open>core/biblio: resolving a key\<close>

text \<open>
  \<^verbatim>\<open>
  export async function resolveRef(key) {
    const biblio = await done;
    if (!biblio.hasOwnProperty(key)) { return null; }
    const entry = biblio[key];
    if (entry.aliasOf) { return await resolveRef(entry.aliasOf); }
    return entry;
  }
  \<close>
  The first argument is the object \<open>done\<close> has resolved to. The function
  calls itself without a bound, so it is a partial function: \<open>None\<close> is a call
  that never returns, \<open>Some None\<close> is the result \<open>null\<close>.
\<close>

partial_function (option) resolveRef :: "biblio \<Rightarrow> string \<Rightarrow> biblioData option option" where
  "resolveRef b key =
     (case fmlookup b key of
        None \<Rightarrow> Some None
      | Some entry \<Rightarrow>
          (case aliasOf entry of
             None \<Rightarrow> Some (Some entry)
           | Some a \<Rightarrow> if a = [] then Some (Some entry) else resolveRef b a))"

section \<open>core/biblio: the resolution pass\<close>

record conf =
  normativeReferences :: "string list"
  informativeReferences :: "string list"
  localBiblio :: "localBiblio option"

text \<open>
  \<open>conf.normativeReferences\<close> and \<open>conf.informativeReferences\<close> are \<open>Set\<close>s, in
  insertion order.
  \<^verbatim>\<open>
  normalizeReferences() {
    const normalizedNormativeRefs = new Set(
      [...this.conf.normativeReferences].map(key => key.toLowerCase()));
    Array.from(this.conf.informativeReferences)
      .filter(key => normalizedNormativeRefs.has(key.toLowerCase()))
      .forEach(redundantKey => this.conf.informativeReferences.delete(redundantKey));
  }
  \<close>
\<close>

definition Set_delete :: "'a list \<Rightarrow> 'a \<Rightarrow> 'a list" where
  "Set_delete s x = removeAll x s"

definition normalizeReferences :: "conf \<Rightarrow> conf" where
  "normalizeReferences c =
     (let normalizedNormativeRefs = new_Set (map toLowerCase (normativeReferences c));
          redundant = filter (\<lambda>key. toLowerCase key \<in> set normalizedNormativeRefs)
                        (informativeReferences c)
      in c\<lparr>informativeReferences := foldl Set_delete (informativeReferences c) redundant\<rparr>)"

text \<open>
  \<^verbatim>\<open>
  const localAliases = Object.keys(this.conf.localBiblio)
    .filter(key => this.conf.localBiblio[key].hasOwnProperty("aliasOf"))
    .map(key => this.conf.localBiblio[key].aliasOf)
    .filter(key => !this.conf.localBiblio.hasOwnProperty(key));
  \<close>
  The first \<open>filter\<close> and the \<open>map\<close> are one \<^const>\<open>List.map_filter\<close>: a key whose
  entry has the property yields the property's value.
\<close>

definition localAliases :: "localBiblio \<Rightarrow> string list" where
  "localAliases lb =
     filter (\<lambda>key. \<not> hasOwnProperty lb key)
       (List.map_filter
          (\<lambda>key. case map_of lb key of None \<Rightarrow> None | Some entry \<Rightarrow> aliasOf entry)
          (Object_keys lb))"

text \<open>
  \<^verbatim>\<open>
  const neededRefs = Array.from(new Set(
    allRefs.normativeReferences.concat(allRefs.informativeReferences)
      .filter(key => !this.conf.localBiblio.hasOwnProperty(key))
      .concat(localAliases)
      .sort()));
  \<close>
  where \<open>allRefs\<close> are the keys after \<open>normalizeReferences\<close>.
\<close>

definition neededRefs :: "string list \<Rightarrow> string list \<Rightarrow> localBiblio \<Rightarrow> string list" where
  "neededRefs normative informative lb =
     new_Set (sort (filter (\<lambda>key. \<not> hasOwnProperty lb key) (normative @ informative)
                    @ localAliases lb))"

text \<open>
  \<^verbatim>\<open>
  async function getReferencesFromIdb(neededRefs) {
    const idbRefs = [];
    try {
      await biblioDB.ready;
      const promisesToFind = neededRefs.map(async id => ({ id, data: await biblioDB.find(id) }));
      idbRefs.push(...(await Promise.all(promisesToFind)));
    } catch (err) {
      idbRefs.push(...neededRefs.map(id => ({ id, data: null })));
      console.warn(err);
    }
    return idbRefs;
  }
  \<close>
\<close>

fun findAll :: "world \<Rightarrow> string list \<Rightarrow> error + (string \<times> biblioData option) list" where
  "findAll w [] = Inr []"
| "findAll w (i # rest) =
     (case idb_find w i of
        Inl err \<Rightarrow> Inl err
      | Inr d \<Rightarrow> (case findAll w rest of Inl err \<Rightarrow> Inl err | Inr found \<Rightarrow> Inr ((i, d) # found)))"

definition getReferencesFromIdb ::
  "world \<Rightarrow> string list \<Rightarrow> state \<Rightarrow> (string \<times> biblioData option) list \<times> state" where
  "getReferencesFromIdb w needed st =
     (case idb_ready w of
        Some err \<Rightarrow> (map (\<lambda>i. (i, None)) needed, log (Console_warn (Thrown err)) st)
      | None \<Rightarrow>
          (case findAll w needed of
             Inl err \<Rightarrow> (map (\<lambda>i. (i, None)) needed, log (Console_warn (Thrown err)) st)
           | Inr found \<Rightarrow> (found, st)))"

text \<open>
  \<^verbatim>\<open>
  async run() {
    const finish = () => { doneResolver(this.conf.biblio); };
    if (!this.conf.localBiblio) { this.conf.localBiblio = {}; }
    this.conf.biblio = biblio;
    const localAliases = ...;
    this.normalizeReferences();
    const allRefs = this.getRefKeys();
    const neededRefs = ...;
    const idbRefs = neededRefs.length ? await getReferencesFromIdb(neededRefs) : [];
    const split = { hasData: [], noData: [] };
    idbRefs.forEach(ref => { (ref.data ? split.hasData : split.noData).push(ref); });
    split.hasData.forEach(ref => { biblio[ref.id] = ref.data; });
    const externalRefs = split.noData.map(item => item.id);
    if (externalRefs.length) {
      const data = await updateFromNetwork(externalRefs, { forceUpdate: true });
      Object.assign(biblio, data);
    }
    Object.assign(biblio, this.conf.localBiblio);
    finish();
  }
  \<close>
  \<open>conf.biblio\<close> is the module-level object \<open>biblio\<close> of the state.
\<close>

definition the_localBiblio :: "conf \<Rightarrow> localBiblio" where
  \<comment> \<open>\<open>conf.localBiblio\<close> after \<open>if (!this.conf.localBiblio) this.conf.localBiblio = {}\<close>\<close>
  "the_localBiblio c = (case localBiblio c of None \<Rightarrow> [] | Some lb \<Rightarrow> lb)"

definition conf_neededRefs :: "conf \<Rightarrow> string list" where
  "conf_neededRefs c =
     (let allRefs = normalizeReferences c
      in neededRefs (normativeReferences allRefs) (informativeReferences allRefs)
           (the_localBiblio c))"

definition idbRefs :: "world \<Rightarrow> conf \<Rightarrow> state \<Rightarrow> (string \<times> biblioData option) list \<times> state" where
  "idbRefs w c st =
     (if conf_neededRefs c \<noteq> [] then getReferencesFromIdb w (conf_neededRefs c) st else ([], st))"

definition hasData :: "(string \<times> biblioData option) list \<Rightarrow> (string \<times> biblioData) list" where
  "hasData found =
     List.map_filter (\<lambda>(i, d). case d of None \<Rightarrow> None | Some entry \<Rightarrow> Some (i, entry)) found"

definition noData :: "(string \<times> biblioData option) list \<Rightarrow> (string \<times> biblioData option) list" where
  "noData found = filter (\<lambda>(i, d). d = None) found"

definition externalRefs :: "world \<Rightarrow> conf \<Rightarrow> state \<Rightarrow> string list" where
  "externalRefs w c st = map fst (noData (fst (idbRefs w c st)))"

definition storeHits :: "world \<Rightarrow> conf \<Rightarrow> state \<Rightarrow> state" where
  \<comment> \<open>the state after \<open>split.hasData.forEach(ref => { biblio[ref.id] = ref.data; })\<close>\<close>
  "storeHits w c st =
     (case idbRefs w c st of
        (found, st1) \<Rightarrow>
          st1\<lparr>biblio := foldl (\<lambda>b (i, d). fmupd i d b) (biblio st1) (hasData found)\<rparr>)"

definition finish :: "state \<Rightarrow> state" where
  "finish st = st\<lparr>done_resolved := True\<rparr>"

definition run :: "world \<Rightarrow> conf \<Rightarrow> state \<Rightarrow> (error + unit) \<times> conf \<times> state" where
  "run w c st =
     (let c1 = normalizeReferences (c\<lparr>localBiblio := Some (the_localBiblio c)\<rparr>);
          st2 = storeHits w c st
      in (case (if externalRefs w c st \<noteq> [] then
                  (case updateFromNetwork w (externalRefs w c st) True st2 of
                     (Inl err, st3) \<Rightarrow> (Inl err, st3)
                   | (Inr d, st3) \<Rightarrow> (Inr (), st3\<lparr>biblio := biblio st3 ++\<^sub>f d\<rparr>))
                else (Inr (), st2)) of
            (Inl err, st4) \<Rightarrow> (Inl err, c1, st4)
          | (Inr u, st4) \<Rightarrow>
              (Inr (), c1, finish (st4\<lparr>biblio := Object_assign (biblio st4) (the_localBiblio c)\<rparr>))))"

section \<open>core/render-biblio: alias chains and duplicates\<close>

text \<open>
  \<^verbatim>\<open>
  function toRefContent(ref) {
    let refcontent = biblio[ref];
    let key = ref;
    const circular = new Set([key]);
    while (refcontent && refcontent.aliasOf) {
      if (circular.has(refcontent.aliasOf)) {
        refcontent = null;
        const msg = `Circular reference in biblio DB between [\`${ref}\`] and [\`${key}\`].`;
        showError(msg, name);
      } else {
        key = refcontent.aliasOf;
        refcontent = biblio[key];
        circular.add(key);
      }
    }
    if (refcontent && !refcontent.id) { refcontent.id = ref.toLowerCase(); }
    return { ref, refcontent };
  }
  \<close>
  The loop is \<open>toRefContent_loop\<close>, over the variables \<open>refcontent\<close>, \<open>key\<close> and
  \<open>circular\<close> and the messages given to \<open>showError\<close>. The assignment to
  \<open>refcontent.id\<close> changes the entry that the store holds under \<open>key\<close>, so
  \<open>toRefContent\<close> returns the store as well.
\<close>

record Ref =
  ref :: string
  refcontent :: "biblioData option"

definition circularMsg :: "string \<Rightarrow> string \<Rightarrow> string" where
  "circularMsg r key =
     ''Circular reference in biblio DB between ['' @ [CHR 0x60] @ r @ [CHR 0x60]
     @ ''] and ['' @ [CHR 0x60] @ key @ [CHR 0x60] @ ''].''"

function toRefContent_loop ::
  "biblio \<Rightarrow> string \<Rightarrow> biblioData option \<Rightarrow> string \<Rightarrow> string list \<Rightarrow> string list
   \<Rightarrow> biblioData option \<times> string \<times> string list" where
  "toRefContent_loop b r rc key circular errs =
     (case rc of
        None \<Rightarrow> (rc, key, errs)
      | Some entry \<Rightarrow>
          (case aliasOf entry of
             None \<Rightarrow> (rc, key, errs)
           | Some a \<Rightarrow>
               if a = [] then (rc, key, errs)
               else if a \<in> set circular
                 then toRefContent_loop b r None key circular (errs @ [circularMsg r key])
                 else toRefContent_loop b r (fmlookup b a) a (Set_add circular a) errs))"
  by pat_completeness auto
termination
proof (relation "measure (\<lambda>(b, r, rc, key, circular, errs).
         case rc of None \<Rightarrow> 0 | Some _ \<Rightarrow> Suc (card (fmdom' b - set circular)))")
  fix b :: biblio and r :: string and rc :: "biblioData option" and key :: string
    and circular errs :: "string list" and entry :: biblioData and a :: string
  assume "rc = Some entry" "aliasOf entry = Some a" "a \<noteq> []" "a \<notin> set circular"
  have "card (fmdom' b - set (Set_add circular a)) < card (fmdom' b - set circular)"
    if "fmlookup b a \<noteq> None"
  proof -
    have mem: "a \<in> fmdom' b - set circular"
      using that \<open>a \<notin> set circular\<close> by (auto simp: fmlookup_dom'_iff)
    have eq: "fmdom' b - set (Set_add circular a) = (fmdom' b - set circular) - {a}"
      by (auto simp: Set_add_def)
    have fin: "finite (fmdom' b - set circular)"
      by (simp add: fmdom'_alt_def)
    from fin mem have "card ((fmdom' b - set circular) - {a}) < card (fmdom' b - set circular)"
      by (rule card_Diff1_less)
    then show ?thesis
      unfolding eq .
  qed
  then show "((b, r, fmlookup b a, a, Set_add circular a, errs), (b, r, rc, key, circular, errs))
        \<in> measure (\<lambda>(b, r, rc, key, circular, errs).
             case rc of None \<Rightarrow> 0 | Some _ \<Rightarrow> Suc (card (fmdom' b - set circular)))"
    using \<open>rc = Some entry\<close> by (auto split: option.splits)
qed auto

definition toRefContent :: "biblio \<Rightarrow> string \<Rightarrow> Ref \<times> biblio \<times> string list" where
  "toRefContent b r =
     (case toRefContent_loop b r (fmlookup b r) r [r] [] of
        (rc, key, errs) \<Rightarrow>
          (case rc of
             None \<Rightarrow> (\<lparr>ref = r, refcontent = None\<rparr>, b, errs)
           | Some entry \<Rightarrow>
               if \<not> truthy (id' entry) then
                 (let entry1 = entry\<lparr>id' := Some (toLowerCase r)\<rparr>
                  in (\<lparr>ref = r, refcontent = Some entry1\<rparr>, fmupd key entry1 b, errs))
               else (\<lparr>ref = r, refcontent = rc\<rparr>, b, errs)))"

text \<open>
  \<^verbatim>\<open>
  function groupRefs(refs) {
    const goodRefs = []; const badRefs = [];
    for (const ref of refs) {
      if (ref.refcontent) { goodRefs.push(ref); } else { badRefs.push(ref); }
    }
    return { goodRefs, badRefs };
  }
  \<close>
\<close>

definition groupRefs :: "Ref list \<Rightarrow> Ref list \<times> Ref list" where
  "groupRefs refs =
     foldl (\<lambda>(goodRefs, badRefs) r.
              if refcontent r \<noteq> None then (goodRefs @ [r], badRefs) else (goodRefs, badRefs @ [r]))
       ([], []) refs"

definition goodRefs :: "Ref list \<Rightarrow> Ref list" where
  "goodRefs refs = fst (groupRefs refs)"

text \<open>
  \<^verbatim>\<open>
  function getUniqueRefs(refs) {
    const uniqueRefs = new Map();
    for (const ref of refs) {
      if (!uniqueRefs.has(ref.refcontent.id)) { uniqueRefs.set(ref.refcontent.id, ref); }
    }
    return [...uniqueRefs.values()];
  }
  \<close>
  Reading \<open>ref.refcontent.id\<close> throws when \<open>ref.refcontent\<close> is \<open>null\<close>. The key of
  the \<open>Map\<close> is the entry's \<open>id\<close>, which may be \<open>undefined\<close> (\<open>None\<close>).
\<close>

fun uniqueRefs_loop ::
  "(string option \<times> Ref) list \<Rightarrow> Ref list \<Rightarrow> error + (string option \<times> Ref) list" where
  "uniqueRefs_loop uniqueRefs [] = Inr uniqueRefs"
| "uniqueRefs_loop uniqueRefs (r # refs) =
     (case refcontent r of
        None \<Rightarrow> Inl (TypeError ''ref.refcontent is null'')
      | Some entry \<Rightarrow>
          uniqueRefs_loop
            (if \<not> Map_has uniqueRefs (id' entry) then Map_set uniqueRefs (id' entry) r
             else uniqueRefs)
            refs)"

definition getUniqueRefs :: "Ref list \<Rightarrow> error + Ref list" where
  "getUniqueRefs refs =
     (case uniqueRefs_loop [] refs of Inl err \<Rightarrow> Inl err | Inr m \<Rightarrow> Inr (Map_values m))"

text \<open>
  \<^verbatim>\<open>
  function getAliases(refs) {
    return refs.reduce((aliases, ref) => {
      const key = ref.refcontent.id;
      const keys = !aliases.has(key) ? aliases.set(key, []).get(key) : aliases.get(key);
      keys.push(ref.ref);
      return aliases;
    }, new Map());
  }
  \<close>
  \<open>keys.push\<close> changes the array that the \<open>Map\<close> holds under \<open>key\<close>.
\<close>

fun aliases_loop ::
  "(string option \<times> string list) list \<Rightarrow> Ref list
   \<Rightarrow> error + (string option \<times> string list) list" where
  "aliases_loop aliases [] = Inr aliases"
| "aliases_loop aliases (r # refs) =
     (case refcontent r of
        None \<Rightarrow> Inl (TypeError ''ref.refcontent is null'')
      | Some entry \<Rightarrow>
          (let key = id' entry;
               aliases1 = (if \<not> Map_has aliases key then Map_set aliases key [] else aliases)
           in (case Map_get aliases1 key of
                 None \<Rightarrow> Inl (TypeError ''keys is undefined'')
               | Some keys \<Rightarrow> aliases_loop (Map_set aliases1 key (keys @ [ref r])) refs)))"

definition getAliases :: "Ref list \<Rightarrow> error + (string option \<times> string list) list" where
  "getAliases refs = aliases_loop [] refs"

text \<open>
  The canonical id of a reference is the \<open>id\<close> of the entry it resolved to.
\<close>

definition canonicalId :: "Ref \<Rightarrow> string option" where
  "canonicalId r = (case refcontent r of None \<Rightarrow> None | Some entry \<Rightarrow> id' entry)"

text \<open>
  The key of a Crossref item: \<open>doi:\<close> followed by its DOI, when it has a DOI
  that is not the empty string.
\<close>

definition itemKey :: "biblioData \<Rightarrow> string option" where
  "itemKey item =
     (case DOI item of None \<Rightarrow> None | Some d \<Rightarrow> if d = [] then None else Some (''doi:'' @ d))"

definition stored :: "string \<Rightarrow> biblioData \<Rightarrow> biblioData" where
  \<comment> \<open>the item as \<open>updateFromCrossref\<close> stores it under the key \<open>k\<close>\<close>
  "stored k item = item\<lparr>id' := Some k, reference := None\<rparr>"

section \<open>Concrete inputs\<close>

definition content :: "string \<Rightarrow> biblioData" where
  "content t = \<lparr>aliasOf = None, id' = None, DOI = None, reference = None, title = Some t\<rparr>"

definition aliasTo :: "string \<Rightarrow> biblioData" where
  "aliasTo a = \<lparr>aliasOf = Some a, id' = None, DOI = None, reference = None, title = None\<rparr>"

definition cyclic_biblio :: biblio where
  \<comment> \<open>\<open>{ A: { aliasOf: "B" }, B: { aliasOf: "A" } }\<close>\<close>
  "cyclic_biblio = fmupd ''A'' (aliasTo ''B'') (fmupd ''B'' (aliasTo ''A'') fmempty)"

definition state0 :: state where
  "state0 = \<lparr>biblio = fmempty, done_resolved = False, console = [], idb_batches = []\<rparr>"

definition unreachable_browser :: world where
  \<comment> \<open>a browser with an empty, working cache, whose requests fail\<close>
  "unreachable_browser =
     \<lparr>onLine = True, now = 1000,
      fetch_specref = (\<lambda>url. Inl (NetworkError ''Failed to fetch'')),
      fetch_crossref = (\<lambda>url. Inl (NetworkError ''Failed to fetch'')),
      Date_parse = (\<lambda>s. None),
      idb_ready = None, idb_find = (\<lambda>i. Inr None), idb_addAll = (\<lambda>d e. None),
      global_response = None, global_oneHourFromNow = None\<rparr>"

definition specref_answer :: "biblio response" where
  "specref_answer =
     \<lparr>ok = True, status = 200, headers = [''expires'' \<mapsto> ''Thu, 01 Jan 1970 00:30:00 GMT''],
      json = Inr (fmupd ''RFC2119'' (content ''Key words for use in RFCs'') fmempty)\<rparr>"

definition online_browser :: world where
  \<comment> \<open>Specref answers 200 with an \<open>Expires\<close> header and the entry of RFC2119\<close>
  "online_browser =
     unreachable_browser\<lparr>fetch_specref := (\<lambda>url. Inr specref_answer),
                     Date_parse := (\<lambda>s. Some 1800000)\<rparr>"

definition malformed_browser :: world where
  \<comment> \<open>Specref answers 200 with a body that is not JSON\<close>
  "malformed_browser =
     unreachable_browser\<lparr>fetch_specref :=
       (\<lambda>url. Inr (specref_answer\<lparr>json := Inl (SyntaxError ''Unexpected token < in JSON'')\<rparr>))\<rparr>"

definition not_found_browser :: world where
  \<comment> \<open>Specref answers 404, with a JSON body all the same\<close>
  "not_found_browser =
     unreachable_browser\<lparr>fetch_specref :=
       (\<lambda>url. Inr (specref_answer\<lparr>ok := False, status := 404\<rparr>))\<rparr>"

definition cached_browser :: world where
  \<comment> \<open>the cache holds HTML; the network is down\<close>
  "cached_browser =
     unreachable_browser\<lparr>onLine := False,
       idb_find := (\<lambda>i. if i = ''HTML'' then Inr (Some (content ''HTML Standard'')) else Inr None)\<rparr>"

definition conf_rfc :: conf where
  \<comment> \<open>a document that cites RFC2119 and overrides the key LOCAL\<close>
  "conf_rfc =
     \<lparr>normativeReferences = [''RFC2119''], informativeReferences = [],
      localBiblio = Some [(''LOCAL'', content ''My own entry'')]\<rparr>"

definition conf_html :: conf where
  \<comment> \<open>a document that cites HTML and overrides the key LOCAL\<close>
  "conf_html =
     \<lparr>normativeReferences = [''HTML''], informativeReferences = [],
      localBiblio = Some [(''LOCAL'', content ''My own entry'')]\<rparr>"

definition first_paper :: biblioData where
  "first_paper =
     (content ''A paper'')\<lparr>DOI := Some ''10.1000/x'', reference := Some [''cited'']\<rparr>"

definition later_paper :: biblioData where
  \<comment> \<open>a second record with the DOI of \<open>first_paper\<close>\<close>
  "later_paper = (content ''The same paper, again'')\<lparr>DOI := Some ''10.1000/x''\<rparr>"

definition empty_DOI_item :: biblioData where
  "empty_DOI_item = (content ''Empty DOI'')\<lparr>DOI := Some []\<rparr>"

definition crossref_items :: "biblioData list" where
  \<comment> \<open>an item with a DOI, one without a DOI, one with an empty DOI, one with the first DOI again\<close>
  "crossref_items = [first_paper, content ''No DOI'', empty_DOI_item, later_paper]"

definition crossref_body :: "biblioData option list \<Rightarrow> crossref_data response" where
  \<comment> \<open>a response of Crossref with the body \<open>{ "message": { "items": [...] } }\<close>\<close>
  "crossref_body its =
     \<lparr>ok = True, status = 200, headers = Map.empty,
      json = Inr \<lparr>message = Some \<lparr>items = Items its\<rparr>\<rparr>\<rparr>"

definition crossref_browser :: world where
  \<comment> \<open>Crossref answers with \<open>crossref_items\<close>\<close>
  "crossref_browser =
     unreachable_browser\<lparr>fetch_crossref := (\<lambda>url. Inr (crossref_body (map Some crossref_items)))\<rparr>"

definition null_item_browser :: world where
  \<comment> \<open>Crossref answers with \<open>first_paper\<close> and the item \<open>null\<close>\<close>
  "null_item_browser =
     unreachable_browser\<lparr>fetch_crossref :=
       (\<lambda>url. Inr (crossref_body [Some first_paper, None]))\<rparr>"

definition crossref_result :: biblio where
  \<comment> \<open>what \<open>updateFromCrossref\<close> returns for \<open>crossref_items\<close>\<close>
  "crossref_result =
     fmupd ''doi:10.1000/x'' (later_paper\<lparr>id' := Some ''doi:10.1000/x'', reference := None\<rparr>)
       fmempty"

definition stale_state :: state where
  \<comment> \<open>the store already holds an entry under the key LOCAL\<close>
  "stale_state = state0\<lparr>biblio := fmupd ''LOCAL'' (content ''Stale entry'') fmempty\<rparr>"

definition rfc_entry :: biblioData where
  "rfc_entry = (content ''Key words for use in RFCs'')\<lparr>id' := Some ''rfc2119''\<rparr>"

definition dup_refs :: "Ref list" where
  \<comment> \<open>two keys of one entry, and a key that did not resolve\<close>
  "dup_refs =
     [\<lparr>ref = ''RFC2119'', refcontent = Some rfc_entry\<rparr>,
      \<lparr>ref = ''MISSING'', refcontent = None\<rparr>,
      \<lparr>ref = ''rfc2119'', refcontent = Some rfc_entry\<rparr>]"

definition conf_alias :: conf where
  \<comment> \<open>local aliases: FOO points outside the local table, BAR inside\<close>
  "conf_alias =
     \<lparr>normativeReferences = [''RFC2119'', ''LOCAL''], informativeReferences = [''HTML''],
      localBiblio = Some [(''LOCAL'', content ''My own entry''), (''FOO'', aliasTo ''EXTERNAL''),
                          (''BAR'', aliasTo ''LOCAL'')]\<rparr>"

lemmas concrete_defs =
  content_def aliasTo_def cyclic_biblio_def state0_def unreachable_browser_def
  specref_answer_def online_browser_def malformed_browser_def not_found_browser_def
  cached_browser_def conf_rfc_def conf_html_def crossref_items_def crossref_browser_def
  first_paper_def later_paper_def empty_DOI_item_def crossref_body_def null_item_browser_def
  crossref_result_def stale_state_def rfc_entry_def dup_refs_def conf_alias_def

section \<open>Properties of the key split\<close>

lemma foldl_Set_add_set: "set (foldl Set_add acc xs) = set acc \<union> set xs"
  by (induction xs arbitrary: acc) (auto simp: Set_add_def)

lemma foldl_Set_add_distinct: "distinct acc \<Longrightarrow> distinct (foldl Set_add acc xs)"
  by (induction xs arbitrary: acc) (auto simp: Set_add_def)

lemma set_new_Set: "set (new_Set xs) = set xs"
  by (simp add: new_Set_def foldl_Set_add_set)

lemma distinct_new_Set: "distinct (new_Set xs)"
  by (simp add: new_Set_def foldl_Set_add_distinct)

text \<open>
  C10. \<open>updateFromNetwork\<close> removes the duplicates of its key list and the keys
  that are empty or consist of white space, and splits the rest by the prefix
  \<open>doi:\<close>: the two lists handed to the two adapters have no repeated key, have
  no key in common, and together hold exactly the keys of the input that are
  not blank; the Crossref list holds exactly those with the prefix.
\<close>

theorem updateFromNetwork_key_partition:
  "distinct (specrefIds refs) \<and> distinct (crossrefIds refs)
   \<and> set (specrefIds refs) \<inter> set (crossrefIds refs) = {}
   \<and> set (specrefIds refs) \<union> set (crossrefIds refs) = {ref. ref \<in> set refs \<and> trim ref \<noteq> []}
   \<and> set (crossrefIds refs) = {ref. ref \<in> set refs \<and> trim ref \<noteq> [] \<and> startsWith ref ''doi:''}
   \<and> set (specrefIds refs) = {ref. ref \<in> set refs \<and> trim ref \<noteq> [] \<and> \<not> startsWith ref ''doi:''}"
  by (auto simp: specrefIds_def crossrefIds_def refsToFetch_def set_new_Set distinct_new_Set)

section \<open>Properties of the source adapters\<close>

text \<open>
  C8. Whatever the forced-update flag, a response of Specref whose status is
  not 200 makes \<open>updateFromSpecref\<close> return \<open>null\<close>, and leaves the state as
  it was.
\<close>

theorem updateFromSpecref_non_200_is_null:
  "fetch_specref w (bibrefsURL @ join '','' ids) = Inr r \<Longrightarrow> status r \<noteq> 200
   \<Longrightarrow> updateFromSpecref w ids forceUpdate st = (Inr None, st)"
  by (simp add: updateFromSpecref_def)

theorem updateFromSpecref_non_200_is_null_witness:
  "status (specref_answer\<lparr>ok := False, status := 404\<rparr>) \<noteq> 200
   \<and> updateFromSpecref not_found_browser [''RFC2119''] True state0 = (Inr None, state0)"
  using updateFromSpecref_non_200_is_null
    [of not_found_browser "[''RFC2119'']" "specref_answer\<lparr>ok := False, status := 404\<rparr>" True state0]
  by (simp add: not_found_browser_def unreachable_browser_def)


lemma collectItem_Some:
  "collectItem (km, out) (Some item)
   = (case itemKey item of
        None \<Rightarrow> (Inr km, out @ [invalidDOI])
      | Some k \<Rightarrow> (Inr (fmupd k (stored k item) km), out))"
  by (simp add: collectItem_def itemKey_def stored_def Let_def split: option.splits)





subsection \<open>The items of a Crossref response\<close>

lemma find_snoc:
  "List.find P (xs @ [x])
   = (case List.find P xs of None \<Rightarrow> (if P x then Some x else None) | Some y \<Rightarrow> Some y)"
  by (induction xs) auto

text \<open>
  Over items that are all objects, \<open>reduce\<close> does not throw; it logs one error
  for each item without a key, and leaves under every key the last item with
  that key.
\<close>

lemma reduce_collectItem_objects:
  "\<exists>km1. reduce_collectItem (km, out) (map Some its)
      = (Inr km1, out @ replicate (length (filter (\<lambda>item. itemKey item = None) its)) invalidDOI)
    \<and> (\<forall>k. fmlookup km1 k
          = (case List.find (\<lambda>item. itemKey item = Some k) (rev its) of
               None \<Rightarrow> fmlookup km k
             | Some item \<Rightarrow> Some (stored k item)))"
proof (induction its arbitrary: km out)
  case Nil
  show ?case by simp
next
  case (Cons item its)
  show ?case
  proof (cases "itemKey item")
    case None
    from Cons[of km "out @ [invalidDOI]"] obtain km1 where km1:
      "reduce_collectItem (km, out @ [invalidDOI]) (map Some its)
       = (Inr km1, (out @ [invalidDOI])
            @ replicate (length (filter (\<lambda>item. itemKey item = None) its)) invalidDOI)"
      "\<forall>k. fmlookup km1 k
          = (case List.find (\<lambda>item. itemKey item = Some k) (rev its) of
               None \<Rightarrow> fmlookup km k
             | Some item \<Rightarrow> Some (stored k item))"
      by blast
    have "reduce_collectItem (km, out) (map Some (item # its))
       = (Inr km1, out @ replicate (length (filter (\<lambda>item. itemKey item = None) (item # its)))
            invalidDOI)"
      using km1(1) None by (simp add: collectItem_Some)
    moreover have "fmlookup km1 k
          = (case List.find (\<lambda>item. itemKey item = Some k) (rev (item # its)) of
               None \<Rightarrow> fmlookup km k
             | Some item \<Rightarrow> Some (stored k item))" for k
      using km1(2) None by (simp add: find_snoc split: option.splits)
    ultimately show ?thesis by blast
  next
    case (Some key)
    from Cons[of "fmupd key (stored key item) km" out] obtain km1 where km1:
      "reduce_collectItem (fmupd key (stored key item) km, out) (map Some its)
       = (Inr km1, out @ replicate (length (filter (\<lambda>item. itemKey item = None) its)) invalidDOI)"
      "\<forall>k. fmlookup km1 k
          = (case List.find (\<lambda>item. itemKey item = Some k) (rev its) of
               None \<Rightarrow> fmlookup (fmupd key (stored key item) km) k
             | Some item \<Rightarrow> Some (stored k item))"
      by blast
    have "reduce_collectItem (km, out) (map Some (item # its))
       = (Inr km1, out @ replicate (length (filter (\<lambda>item. itemKey item = None) (item # its)))
            invalidDOI)"
      using km1(1) Some by (simp add: collectItem_Some)
    moreover have "fmlookup km1 k
          = (case List.find (\<lambda>item. itemKey item = Some k) (rev (item # its)) of
               None \<Rightarrow> fmlookup km k
             | Some item \<Rightarrow> Some (stored k item))" for k
      using km1(2) Some by (auto simp: find_snoc split: option.splits)
    ultimately show ?thesis by blast
  qed
qed

text \<open>
  C9, as the code has it. When Crossref answers with an array of items, none
  of them \<open>null\<close>, \<open>updateFromCrossref\<close> returns a mapping and logs one error for
  each item whose DOI is missing or is the empty string. Under every key the
  mapping holds the last item of the response whose key it is (\<open>doi:\<close> followed
  by its DOI, which is not empty), with its \<open>id\<close> set to the key and its
  \<open>reference\<close> deleted, and it holds nothing under any other key: an item
  without a DOI, or with an empty one, is under no key, and a requested key
  that is the key of no returned item is absent.
\<close>

theorem updateFromCrossref_keeps_last_item_of_each_DOI:
  assumes "ids \<noteq> []" "onLine w" "fetch_crossref w (crossrefURL @ join '','' ids) = Inr r"
    "json r = Inr d" "message d = Some m" "items m = Items (map Some its)"
  shows "\<exists>km. updateFromCrossref w ids st
      = (Inr (Some km),
         st\<lparr>console := console st
              @ replicate (length (filter (\<lambda>item. itemKey item = None) its)) invalidDOI\<rparr>)
    \<and> (\<forall>k. fmlookup km k
          = map_option (stored k) (List.find (\<lambda>item. itemKey item = Some k) (rev its)))
    \<and> fmdom' km = {k. \<exists>item \<in> set its. itemKey item = Some k}"
proof -
  from reduce_collectItem_objects[of fmempty "console st" its] obtain km where km:
    "reduce_collectItem (fmempty, console st) (map Some its)
      = (Inr km, console st
           @ replicate (length (filter (\<lambda>item. itemKey item = None) its)) invalidDOI)"
    "\<forall>k. fmlookup km k
          = (case List.find (\<lambda>item. itemKey item = Some k) (rev its) of
               None \<Rightarrow> fmlookup fmempty k
             | Some item \<Rightarrow> Some (stored k item))"
    by blast
  have res: "updateFromCrossref w ids st
      = (Inr (Some km),
         st\<lparr>console := console st
              @ replicate (length (filter (\<lambda>item. itemKey item = None) its)) invalidDOI\<rparr>)"
    using assms km(1) by (simp add: updateFromCrossref_def)
  have look: "fmlookup km k
      = map_option (stored k) (List.find (\<lambda>item. itemKey item = Some k) (rev its))" for k
    using km(2) by (simp split: option.splits)
  have "k \<in> fmdom' km \<longleftrightarrow> (\<exists>item \<in> set its. itemKey item = Some k)" for k
  proof -
    have "k \<in> fmdom' km \<longleftrightarrow> fmlookup km k \<noteq> None"
      by (auto simp: fmlookup_dom'_iff)
    also have "\<dots> \<longleftrightarrow> List.find (\<lambda>item. itemKey item = Some k) (rev its) \<noteq> None"
      by (simp add: look)
    also have "\<dots> \<longleftrightarrow> (\<exists>item \<in> set its. itemKey item = Some k)"
      by (auto simp: find_None_iff)
    finally show ?thesis .
  qed
  then have "fmdom' km = {k. \<exists>item \<in> set its. itemKey item = Some k}"
    by blast
  with res look show ?thesis
    by blast
qed

text \<open>
  The claim C9 as stated fails, three times. The third item of
  \<open>crossref_items\<close> has a DOI field, the empty string: it is under no key and
  is reported on the console like the item without a DOI. The first item has
  the DOI of the last one: the mapping holds the last one under their key, and
  not the first. And with \<open>null\<close> after the first item, the adapter throws and
  returns no mapping at all.
\<close>

theorem updateFromCrossref_items_counterexample:
  "updateFromCrossref crossref_browser [''doi:10.1000/x''] state0
     = (Inr (Some crossref_result), state0\<lparr>console := [invalidDOI, invalidDOI]\<rparr>)
   \<and> empty_DOI_item \<in> set crossref_items \<and> DOI empty_DOI_item = Some []
   \<and> fmlookup crossref_result (''doi:'' @ []) = None
   \<and> first_paper \<in> set crossref_items \<and> DOI first_paper = Some ''10.1000/x''
   \<and> fmlookup crossref_result (''doi:'' @ ''10.1000/x'')
     = Some (stored ''doi:10.1000/x'' later_paper)
   \<and> stored ''doi:10.1000/x'' later_paper \<noteq> stored ''doi:10.1000/x'' first_paper
   \<and> updateFromCrossref null_item_browser [''doi:10.1000/x''] state0
     = (Inl (TypeError ''item is null''), state0)"
  by (simp add: updateFromCrossref_def concrete_defs collectItem_def stored_def Let_def)

theorem updateFromCrossref_keeps_last_item_of_each_DOI_witness:
  "\<exists>km. updateFromCrossref crossref_browser [''doi:10.1000/x''] state0
      = (Inr (Some km), state0\<lparr>console := [invalidDOI, invalidDOI]\<rparr>)
    \<and> fmlookup km ''doi:10.1000/x'' = Some (stored ''doi:10.1000/x'' later_paper)
    \<and> fmlookup km ''doi:'' = None"
proof -
  have "[''doi:10.1000/x''] \<noteq> []" "onLine crossref_browser"
    "fetch_crossref crossref_browser (crossrefURL @ join '','' [''doi:10.1000/x''])
     = Inr (crossref_body (map Some crossref_items))"
    "json (crossref_body (map Some crossref_items))
     = Inr \<lparr>message = Some \<lparr>items = Items (map Some crossref_items)\<rparr>\<rparr>"
    "message \<lparr>message = Some \<lparr>items = Items (map Some crossref_items)\<rparr>\<rparr>
     = Some \<lparr>items = Items (map Some crossref_items)\<rparr>"
    "items \<lparr>items = Items (map Some crossref_items)\<rparr> = Items (map Some crossref_items)"
    by (simp_all add: crossref_browser_def unreachable_browser_def crossref_body_def)
  from updateFromCrossref_keeps_last_item_of_each_DOI [OF this, of state0]
  obtain km where km: "updateFromCrossref crossref_browser [''doi:10.1000/x''] state0
      = (Inr (Some km),
         state0\<lparr>console := console state0
              @ replicate (length (filter (\<lambda>item. itemKey item = None) crossref_items))
                  invalidDOI\<rparr>)"
    "\<forall>k. fmlookup km k
          = map_option (stored k)
              (List.find (\<lambda>item. itemKey item = Some k) (rev crossref_items))"
    by blast
  have "console state0
      @ replicate (length (filter (\<lambda>item. itemKey item = None) crossref_items)) invalidDOI
      = [invalidDOI, invalidDOI]"
    by (simp add: concrete_defs itemKey_def)
  moreover have "fmlookup km ''doi:10.1000/x'' = Some (stored ''doi:10.1000/x'' later_paper)"
    "fmlookup km ''doi:'' = None"
    using km(2) by (simp_all add: concrete_defs itemKey_def)
  ultimately show ?thesis
    using km(1) by simp
qed

section \<open>Properties of the network fetch\<close>

lemmas key_split_defs =
  specrefIds_def crossrefIds_def refsToFetch_def new_Set_def Set_add_def trim_def
  isWhiteSpace_def startsWith_def

lemma adapters_keep_batches:
  "idb_batches (snd (updateFromSpecref w ids f st)) = idb_batches st"
  "idb_batches (snd (updateFromCrossref w ids st)) = idb_batches st"
  by (auto simp: updateFromSpecref_def updateFromCrossref_def log_def
      split: sum.splits option.splits if_splits prod.splits items_value.splits)

text \<open>
  Where the global object binds no \<open>response\<close>, as in a browser, every call of
  \<open>updateFromNetwork\<close> throws, and none reaches \<open>biblioDB.addAll\<close>.
\<close>

lemma updateFromNetwork_unbound_response:
  assumes "global_response w = None"
  shows "(\<exists>err. fst (updateFromNetwork w refs f st) = Inl err)
    \<and> idb_batches (snd (updateFromNetwork w refs f st)) = idb_batches st"
proof -
  obtain r1 s1 where a: "updateFromSpecref w (specrefIds refs) f st = (r1, s1)" by force
  obtain r2 s2 where b: "updateFromCrossref w (crossrefIds refs) s1 = (r2, s2)" by force
  have "idb_batches s1 = idb_batches st"
    using adapters_keep_batches(1)[of w "specrefIds refs" f st] a by simp
  moreover have "idb_batches s2 = idb_batches s1"
    using adapters_keep_batches(2)[of w "crossrefIds refs" s1] b by simp
  ultimately show ?thesis
    using assms a b by (auto simp: updateFromNetwork_def expires_def split: sum.splits)
qed

text \<open>
  C2. The expiry of a fetched batch is meant to be the minimum of one hour
  from the fetch and the \<open>Expires\<close> header. The code computes it from
  \<open>response\<close> and \<open>oneHourFromNow\<close>, which are locals of \<open>updateFromSpecref\<close> and
  not in scope in \<open>updateFromNetwork\<close>: with Specref answering 200, an
  \<open>Expires\<close> header and the entry of RFC2119, the call throws a
  \<open>ReferenceError\<close> and the cache receives no batch and no expiry.
\<close>

theorem updateFromNetwork_throws_before_addAll:
  "updateFromNetwork online_browser [''RFC2119''] True state0
   = (Inl (ReferenceError ''response is not defined''), state0)
   \<and> idb_batches state0 = []"
  by (simp add: updateFromNetwork_def updateFromSpecref_def updateFromCrossref_def expires_def
      concrete_defs key_split_defs spread_def)

section \<open>Properties of the resolution pass\<close>

lemma set_map_filter: "set (List.map_filter f xs) = {y. \<exists>x \<in> set xs. f x = Some y}"
  by (induction xs) (auto split: option.splits)

lemma set_localAliases:
  "set (localAliases lb)
   = {a. \<exists>key entry. map_of lb key = Some entry \<and> aliasOf entry = Some a \<and> map_of lb a = None}"
proof -
  have "set (Object_keys lb) = dom (map_of lb)"
    by (simp add: Object_keys_def dom_map_of_conv_image_fst)
  then show ?thesis
    by (auto simp: localAliases_def hasOwnProperty_def set_map_filter split: option.splits)
qed

text \<open>
  What \<open>normalizeReferences\<close> leaves of the informative keys: those whose
  lower-case form is not the lower-case form of a normative key.
\<close>

lemma normalizeReferences_informative:
  "set (informativeReferences (normalizeReferences c))
   = {key \<in> set (informativeReferences c).
        toLowerCase key \<notin> toLowerCase ` set (normativeReferences c)}"
proof -
  have del: "set (foldl Set_delete xs ys) = set xs - set ys" for xs ys :: "string list"
    by (induction ys arbitrary: xs) (auto simp: Set_delete_def)
  show ?thesis
    by (auto simp: normalizeReferences_def Let_def del set_new_Set)
qed

text \<open>
  C6. The keys asked of the cache and the network are the normative keys and
  the informative keys (as \<open>normalizeReferences\<close> left them), without the keys
  of the local table, together with the \<open>aliasOf\<close> targets of the local
  entries whose target is not a key of the local table.
\<close>

theorem neededRefs_union_minus_local_plus_alias_targets:
  "set (conf_neededRefs c)
   = ((set (normativeReferences c) \<union> set (informativeReferences (normalizeReferences c)))
        - dom (map_of (the_localBiblio c)))
     \<union> {a. \<exists>key entry. map_of (the_localBiblio c) key = Some entry \<and> aliasOf entry = Some a
              \<and> a \<notin> dom (map_of (the_localBiblio c))}"
proof -
  have "normativeReferences (normalizeReferences c) = normativeReferences c"
    by (simp add: normalizeReferences_def Let_def)
  then show ?thesis
    by (auto simp: conf_neededRefs_def neededRefs_def Let_def set_new_Set set_localAliases
        hasOwnProperty_def)
qed

lemma conf_neededRefs_example:
  "conf_neededRefs conf_alias = [''EXTERNAL'', ''HTML'', ''RFC2119'']"
  by code_simp


lemma fmlookup_Object_assign:
  "fmlookup (Object_assign target source) k
   = (case map_of source k of None \<Rightarrow> fmlookup target k | Some v \<Rightarrow> Some v)"
proof (cases "map_of source k")
  case None
  then have "fmlookup (fmap_of_list source) k = None"
    by (simp add: fmlookup_of_list)
  then have "k |\<notin>| fmdom (fmap_of_list source)"
    by (rule fmdom_notI)
  then have "fmlookup (target ++\<^sub>f fmap_of_list source) k = fmlookup target k"
    by (simp only: fmlookup_add if_False)
  with None show ?thesis
    by (simp add: Object_assign_def del: fmlookup_add)
next
  case (Some v)
  then have l: "fmlookup (fmap_of_list source) k = Some v"
    by (simp add: fmlookup_of_list)
  then have "k |\<in>| fmdom (fmap_of_list source)"
    by (rule fmdomI)
  then have "fmlookup (target ++\<^sub>f fmap_of_list source) k = fmlookup (fmap_of_list source) k"
    by (simp only: fmlookup_add if_True)
  with Some l show ?thesis
    by (simp add: Object_assign_def del: fmlookup_add)
qed

lemmas run_defs =
  run_def externalRefs_def storeHits_def idbRefs_def conf_neededRefs_def neededRefs_def
  normalizeReferences_def the_localBiblio_def localAliases_def hasOwnProperty_def Object_keys_def
  List.map_filter_def new_Set_def Set_add_def getReferencesFromIdb_def hasData_def noData_def
  finish_def Object_assign_def

lemma run_no_fetch:
  "externalRefs w c st = [] \<Longrightarrow>
   run w c st
   = (Inr (), normalizeReferences (c\<lparr>localBiblio := Some (the_localBiblio c)\<rparr>),
      finish ((storeHits w c st)\<lparr>biblio :=
        Object_assign (biblio (storeHits w c st)) (the_localBiblio c)\<rparr>))"
  by (simp add: run_def Let_def)

lemma run_fetch_throws:
  "externalRefs w c st \<noteq> [] \<Longrightarrow>
   updateFromNetwork w (externalRefs w c st) True (storeHits w c st) = (Inl err, st1) \<Longrightarrow>
   run w c st = (Inl err, normalizeReferences (c\<lparr>localBiblio := Some (the_localBiblio c)\<rparr>), st1)"
  by (simp add: run_def Let_def)

lemma updateFromSpecref_throws_state:
  "updateFromSpecref w ids f st = (Inl err, st1) \<Longrightarrow> st1 = st"
  by (auto simp: updateFromSpecref_def split: if_splits sum.splits)

lemma updateFromNetwork_specref_throws:
  "updateFromSpecref w (specrefIds refs) f st = (Inl err, st1)
   \<Longrightarrow> updateFromNetwork w refs f st = (Inl err, st1)"
  by (simp add: updateFromNetwork_def)

lemma storeHits_done: "done_resolved (storeHits w c st) = done_resolved st"
  by (auto simp: storeHits_def idbRefs_def getReferencesFromIdb_def log_def
      split: prod.splits option.splits sum.splits)

text \<open>
  C3, as the code has it. A pass that has nothing to fetch (every needed key
  is a cache hit, or no key is needed) does not abort, whatever the state of
  the network: the local table is merged into the store and \<open>done\<close> is
  resolved. When keys have to be fetched, an exception of an adapter is not
  contained: if \<open>updateFromSpecref\<close> throws (a response body that is not JSON),
  the pass throws the same exception, \<open>done\<close> is as it was and the store holds
  the cache hits only, not the local table.
\<close>

theorem run_completes_without_fetch_and_aborts_on_adapter_exception:
  "(externalRefs w c st = [] \<longrightarrow>
      (\<exists>c' st'. run w c st = (Inr (), c', st') \<and> done_resolved st'
         \<and> (\<forall>k v. map_of (the_localBiblio c) k = Some v \<longrightarrow> fmlookup (biblio st') k = Some v)))
   \<and> (\<forall>err st1. externalRefs w c st \<noteq> []
         \<and> updateFromSpecref w (specrefIds (externalRefs w c st)) True (storeHits w c st)
           = (Inl err, st1)
       \<longrightarrow> (\<exists>c'. run w c st = (Inl err, c', st1)) \<and> done_resolved st1 = done_resolved st
           \<and> biblio st1 = biblio (storeHits w c st))"
proof (intro conjI impI allI)
  assume "externalRefs w c st = []"
  then show "\<exists>c' st'. run w c st = (Inr (), c', st') \<and> done_resolved st'
         \<and> (\<forall>k v. map_of (the_localBiblio c) k = Some v \<longrightarrow> fmlookup (biblio st') k = Some v)"
    by (simp add: run_no_fetch finish_def fmlookup_Object_assign)
next
  fix err st1
  assume a: "externalRefs w c st \<noteq> []
    \<and> updateFromSpecref w (specrefIds (externalRefs w c st)) True (storeHits w c st)
      = (Inl err, st1)"
  then have st1: "st1 = storeHits w c st"
    using updateFromSpecref_throws_state by blast
  from a have "updateFromNetwork w (externalRefs w c st) True (storeHits w c st) = (Inl err, st1)"
    by (simp add: updateFromNetwork_specref_throws)
  with a show "\<exists>c'. run w c st = (Inl err, c', st1)"
    by (simp add: run_fetch_throws)
  from st1 show "done_resolved st1 = done_resolved st"
    by (simp add: storeHits_done)
  from st1 show "biblio st1 = biblio (storeHits w c st)"
    by simp
qed

text \<open>
  The claim C3 as stated fails: RFC2119 misses the cache and Specref answers
  200 with a body that is not JSON. The pass throws the \<open>SyntaxError\<close>; \<open>done\<close>
  is not resolved and the key LOCAL of the local table is not in the store.
\<close>

theorem run_malformed_response_aborts_counterexample:
  "run malformed_browser conf_rfc state0
   = (Inl (SyntaxError ''Unexpected token < in JSON''), conf_rfc, state0)
   \<and> \<not> done_resolved state0
   \<and> fmlookup (biblio state0) ''LOCAL'' = None
   \<and> map_of (the_localBiblio conf_rfc) ''LOCAL'' = Some (content ''My own entry'')"
  by (simp add: run_defs concrete_defs updateFromNetwork_def updateFromSpecref_def
      key_split_defs)

theorem run_completes_without_fetch_and_aborts_on_adapter_exception_witness:
  "externalRefs cached_browser conf_html state0 = []
   \<and> (\<exists>c' st'. run cached_browser conf_html state0 = (Inr (), c', st') \<and> done_resolved st'
        \<and> fmlookup (biblio st') ''LOCAL'' = Some (content ''My own entry''))
   \<and> externalRefs malformed_browser conf_rfc state0 = [''RFC2119'']
   \<and> (\<exists>c'. run malformed_browser conf_rfc state0
          = (Inl (SyntaxError ''Unexpected token < in JSON''), c', state0))"
proof -
  have e1: "externalRefs cached_browser conf_html state0 = []"
    by (simp add: run_defs concrete_defs)
  have l: "map_of (the_localBiblio conf_html) ''LOCAL'' = Some (content ''My own entry'')"
    by (simp add: the_localBiblio_def conf_html_def)
  have e2: "externalRefs malformed_browser conf_rfc state0 = [''RFC2119'']"
    by (simp add: run_defs concrete_defs)
  have t: "updateFromSpecref malformed_browser (specrefIds [''RFC2119'']) True
      (storeHits malformed_browser conf_rfc state0)
    = (Inl (SyntaxError ''Unexpected token < in JSON''), state0)"
    by (simp add: run_defs concrete_defs updateFromSpecref_def key_split_defs)
  from e1 l
    run_completes_without_fetch_and_aborts_on_adapter_exception
      [of cached_browser conf_html state0]
  have "\<exists>c' st'. run cached_browser conf_html state0 = (Inr (), c', st') \<and> done_resolved st'
        \<and> fmlookup (biblio st') ''LOCAL'' = Some (content ''My own entry'')"
    by blast
  moreover from e2 t
    run_completes_without_fetch_and_aborts_on_adapter_exception
      [of malformed_browser conf_rfc state0]
  have "\<exists>c'. run malformed_browser conf_rfc state0
          = (Inl (SyntaxError ''Unexpected token < in JSON''), c', state0)"
    by simp
  ultimately show ?thesis
    using e1 e2 by blast
qed

text \<open>
  With the network unreachable the adapters return \<open>null\<close>, and the pass still
  aborts, on the \<open>ReferenceError\<close> of \<open>updateFromNetwork\<close>.
\<close>

lemma run_unreachable_network_aborts:
  "run unreachable_browser conf_rfc state0
   = (Inl (ReferenceError ''response is not defined''), conf_rfc,
      state0\<lparr>console := [Console_error (Thrown (NetworkError ''Failed to fetch''))]\<rparr>)"
  by (simp add: run_defs concrete_defs updateFromNetwork_def updateFromSpecref_def
      updateFromCrossref_def key_split_defs expires_def log_def)

lemma adapters_keep_store:
  "done_resolved (snd (updateFromSpecref w ids f st)) = done_resolved st"
  "biblio (snd (updateFromSpecref w ids f st)) = biblio st"
  "done_resolved (snd (updateFromCrossref w ids st)) = done_resolved st"
  "biblio (snd (updateFromCrossref w ids st)) = biblio st"
  by (auto simp: updateFromSpecref_def updateFromCrossref_def log_def
      split: sum.splits option.splits if_splits prod.splits items_value.splits)

lemma updateFromNetwork_throws_keeps_store:
  assumes "updateFromNetwork w refs f st = (Inl err, st1)"
  shows "done_resolved st1 = done_resolved st \<and> biblio st1 = biblio st"
proof -
  obtain r1 s1 where a: "updateFromSpecref w (specrefIds refs) f st = (r1, s1)" by force
  obtain r2 s2 where b: "updateFromCrossref w (crossrefIds refs) s1 = (r2, s2)" by force
  have "done_resolved s1 = done_resolved st" "biblio s1 = biblio st"
    using adapters_keep_store(1,2)[of w "specrefIds refs" f st] a by simp_all
  moreover have "done_resolved s2 = done_resolved s1" "biblio s2 = biblio s1"
    using adapters_keep_store(3,4)[of w "crossrefIds refs" s1] b by simp_all
  ultimately show ?thesis
    using assms a b by (auto simp: updateFromNetwork_def Let_def split: sum.splits)
qed

text \<open>
  The same in general: where the global object binds no \<open>response\<close>, every
  pass that has a key to fetch aborts, with \<open>done\<close> as it was and the local
  table not merged.
\<close>

lemma run_with_fetch_aborts:
  assumes "global_response w = None" and "externalRefs w c st \<noteq> []"
  shows "\<exists>err c' st'. run w c st = (Inl err, c', st')
    \<and> done_resolved st' = done_resolved st \<and> biblio st' = biblio (storeHits w c st)"
proof -
  from updateFromNetwork_unbound_response[OF assms(1), of "externalRefs w c st" True "storeHits w c st"]
  obtain err where "fst (updateFromNetwork w (externalRefs w c st) True (storeHits w c st)) = Inl err"
    by blast
  then obtain st1 where
    n: "updateFromNetwork w (externalRefs w c st) True (storeHits w c st) = (Inl err, st1)"
    by (cases "updateFromNetwork w (externalRefs w c st) True (storeHits w c st)") auto
  from updateFromNetwork_throws_keeps_store[OF n]
  have "done_resolved st1 = done_resolved st" "biblio st1 = biblio (storeHits w c st)"
    by (simp_all add: storeHits_done)
  with run_fetch_throws[OF assms(2) n] show ?thesis
    by blast
qed

text \<open>
  C5. When the pass completes, the store holds, under every key of the local
  table, the entry of the local table, whatever the store, the cache or the
  fetched batch held under that key.
\<close>

theorem run_override_precedence:
  "run w c st = (Inr u, c', st') \<Longrightarrow> map_of (the_localBiblio c) k = Some v
   \<Longrightarrow> fmlookup (biblio st') k = Some v"
  by (auto simp: run_def Let_def finish_def fmlookup_Object_assign
      split: if_splits prod.splits sum.splits)

theorem run_override_precedence_witness:
  "fst (run cached_browser conf_html stale_state) = Inr ()
   \<and> fmlookup (biblio stale_state) ''LOCAL'' = Some (content ''Stale entry'')
   \<and> map_of (the_localBiblio conf_html) ''LOCAL'' = Some (content ''My own entry'')
   \<and> fmlookup (biblio (snd (snd (run cached_browser conf_html stale_state)))) ''LOCAL''
     = Some (content ''My own entry'')"
proof -
  have ok: "fst (run cached_browser conf_html stale_state) = Inr ()"
    by (simp add: run_defs concrete_defs)
  then obtain c' st' where r: "run cached_browser conf_html stale_state = (Inr (), c', st')"
    by (cases "run cached_browser conf_html stale_state") auto
  have l: "map_of (the_localBiblio conf_html) ''LOCAL'' = Some (content ''My own entry'')"
    by (simp add: the_localBiblio_def conf_html_def)
  from run_override_precedence [OF r l] r ok l show ?thesis
    by (simp add: stale_state_def state0_def)
qed


section \<open>Properties of alias resolution\<close>

text \<open>
  A call of \<open>resolveRef\<close> that returns has not started on the cycle between
  A and B: by induction on the calls, since a call on A returns what the call
  on B returns, and conversely.
\<close>

lemma resolveRef_returns_off_cycle:
  assumes "resolveRef b k = Some y"
  shows "b = cyclic_biblio \<longrightarrow> k \<noteq> ''A'' \<and> k \<noteq> ''B''"
proof (rule resolveRef.raw_induct
    [where P = "\<lambda>b k y. b = cyclic_biblio \<longrightarrow> k \<noteq> ''A'' \<and> k \<noteq> ''B''", OF _ assms])
  fix f :: "biblio \<Rightarrow> string \<Rightarrow> biblioData option option" and b key y
  assume IH: "\<And>b key y. f b key = Some y \<Longrightarrow> b = cyclic_biblio \<longrightarrow> key \<noteq> ''A'' \<and> key \<noteq> ''B''"
    and body: "(case fmlookup b key of
           None \<Rightarrow> Some None
         | Some entry \<Rightarrow>
             (case aliasOf entry of
                None \<Rightarrow> Some (Some entry)
              | Some a \<Rightarrow> if a = [] then Some (Some entry) else f b a)) = Some y"
  show "b = cyclic_biblio \<longrightarrow> key \<noteq> ''A'' \<and> key \<noteq> ''B''"
  proof (intro impI conjI notI)
    assume "b = cyclic_biblio" "key = ''A''"
    with body have "f cyclic_biblio ''B'' = Some y"
      by (simp add: cyclic_biblio_def aliasTo_def)
    from IH[OF this] show False by simp
  next
    assume "b = cyclic_biblio" "key = ''B''"
    with body have "f cyclic_biblio ''A'' = Some y"
      by (simp add: cyclic_biblio_def aliasTo_def)
    from IH[OF this] show False by simp
  qed
qed

lemma toRefContent_alias_cycle:
  "toRefContent cyclic_biblio ''A''
   = (\<lparr>ref = ''A'', refcontent = None\<rparr>, cyclic_biblio, [circularMsg ''A'' ''B''])"
  by (simp add: toRefContent_def cyclic_biblio_def aliasTo_def Set_add_def)

text \<open>
  C1. Alias resolution is meant to terminate on every store. \<open>toRefContent\<close>
  does: it is a total function, and on the chain from A to B and back it
  returns no entry for A, with a message that names A and B. \<open>resolveRef\<close>
  keeps no set of visited keys: on the same store the call for A never
  returns.
\<close>

theorem resolveRef_alias_cycle_never_returns:
  "resolveRef cyclic_biblio ''A'' = None
   \<and> toRefContent cyclic_biblio ''A''
     = (\<lparr>ref = ''A'', refcontent = None\<rparr>, cyclic_biblio,
        [''Circular reference in biblio DB between ['' @ [CHR 0x60] @ ''A'' @ [CHR 0x60]
         @ ''] and ['' @ [CHR 0x60] @ ''B'' @ [CHR 0x60] @ ''].''])"
proof -
  have "resolveRef cyclic_biblio ''A'' = None"
    using resolveRef_returns_off_cycle[of cyclic_biblio "''A''"]
    by (cases "resolveRef cyclic_biblio ''A''") auto
  then show ?thesis
    by (simp add: toRefContent_alias_cycle circularMsg_def)
qed

section \<open>Properties of the list of references\<close>

lemma groupRefs_foldl:
  "foldl (\<lambda>(goodRefs, badRefs) r.
              if refcontent r \<noteq> None then (goodRefs @ [r], badRefs) else (goodRefs, badRefs @ [r]))
       (g, b) refs
   = (g @ filter (\<lambda>r. refcontent r \<noteq> None) refs, b @ filter (\<lambda>r. refcontent r = None) refs)"
  by (induction refs arbitrary: g b) auto

lemma goodRefs_filter: "goodRefs refs = filter (\<lambda>r. refcontent r \<noteq> None) refs"
  unfolding goodRefs_def groupRefs_def groupRefs_foldl by simp

lemma Map_set_new: "map_of m k = None \<Longrightarrow> Map_set m k v = m @ [(k, v)]"
  by (induction m) (auto simp: Map_set_def)

lemma map_of_Map_set: "map_of (Map_set m k v) = (map_of m)(k \<mapsto> v)"
  by (simp add: Map_set_def update_conv')

lemma find_filter:
  "List.find P xs = (case filter P xs of [] \<Rightarrow> None | x # _ \<Rightarrow> Some x)"
  by (induction xs) auto

text \<open>
  The \<open>Map\<close> of \<open>getUniqueRefs\<close> holds, under every id, the first reference of
  the list with that id.
\<close>

lemma uniqueRefs_loop_good:
  assumes "\<forall>r \<in> set xs. refcontent r \<noteq> None"
    and "distinct (map fst acc)" and "\<forall>(k, v) \<in> set acc. canonicalId v = k"
  shows "\<exists>m. uniqueRefs_loop acc xs = Inr m \<and> distinct (map fst m)
      \<and> (\<forall>(k, v) \<in> set m. canonicalId v = k)
      \<and> (\<forall>k. map_of m k
            = (case map_of acc k of Some v \<Rightarrow> Some v
               | None \<Rightarrow> List.find (\<lambda>r. canonicalId r = k) xs))"
  using assms
proof (induction xs arbitrary: acc)
  case Nil
  then show ?case by (auto split: option.splits)
next
  case (Cons r xs)
  from Cons.prems(1) obtain entry where entry: "refcontent r = Some entry" by auto
  then have cid: "canonicalId r = id' entry" by (simp add: canonicalId_def)
  show ?case
  proof (cases "map_of acc (id' entry)")
    case None
    let ?acc = "acc @ [(id' entry, r)]"
    have step: "uniqueRefs_loop acc (r # xs) = uniqueRefs_loop ?acc xs"
      using entry None by (simp add: Map_has_def Map_set_new)
    have d: "distinct (map fst ?acc)"
      using Cons.prems(2) None by (auto simp: map_of_eq_None_iff)
    have c: "\<forall>(k, v) \<in> set ?acc. canonicalId v = k"
      using Cons.prems(3) cid by auto
    from Cons.IH[OF _ d c] Cons.prems(1) obtain m where m:
      "uniqueRefs_loop ?acc xs = Inr m" "distinct (map fst m)"
      "\<forall>(k, v) \<in> set m. canonicalId v = k"
      "\<forall>k. map_of m k = (case map_of ?acc k of Some v \<Rightarrow> Some v
               | None \<Rightarrow> List.find (\<lambda>r. canonicalId r = k) xs)"
      by auto
    have "map_of m k = (case map_of acc k of Some v \<Rightarrow> Some v
               | None \<Rightarrow> List.find (\<lambda>r. canonicalId r = k) (r # xs))" for k
      using m(4) None cid Cons.prems(2) by (auto simp: map_add_def split: option.splits)
    with m step show ?thesis by auto
  next
    case (Some v)
    have step: "uniqueRefs_loop acc (r # xs) = uniqueRefs_loop acc xs"
      using entry Some by (simp add: Map_has_def)
    from Cons.IH[OF _ Cons.prems(2) Cons.prems(3)] Cons.prems(1) obtain m where m:
      "uniqueRefs_loop acc xs = Inr m" "distinct (map fst m)"
      "\<forall>(k, v) \<in> set m. canonicalId v = k"
      "\<forall>k. map_of m k = (case map_of acc k of Some v \<Rightarrow> Some v
               | None \<Rightarrow> List.find (\<lambda>r. canonicalId r = k) xs)"
      by auto
    have "map_of m k = (case map_of acc k of Some v \<Rightarrow> Some v
               | None \<Rightarrow> List.find (\<lambda>r. canonicalId r = k) (r # xs))" for k
      using m(4) Some cid by (auto split: option.splits)
    with m step show ?thesis by auto
  qed
qed

lemma filter_values_by_key:
  assumes "distinct (map fst m)" and "\<forall>(k, v) \<in> set m. f v = k"
  shows "filter (\<lambda>v. f v = c) (map snd m) = (case map_of m c of None \<Rightarrow> [] | Some v \<Rightarrow> [v])"
  using assms
proof (induction m)
  case Nil
  show ?case by simp
next
  case (Cons p m)
  obtain k v where p: "p = (k, v)" by force
  with Cons.prems have fv: "f v = k" and notin: "k \<notin> fst ` set m" by auto
  from Cons have IH:
    "filter (\<lambda>v. f v = c) (map snd m) = (case map_of m c of None \<Rightarrow> [] | Some v \<Rightarrow> [v])"
    by auto
  show ?case
  proof (cases "k = c")
    case True
    with notin have "map_of m c = None" by (simp add: map_of_eq_None_iff)
    with IH p fv True show ?thesis by simp
  next
    case False
    with IH p fv show ?thesis by simp
  qed
qed


text \<open>
  The \<open>Map\<close> of \<open>getAliases\<close> holds, under every id, the keys of the references
  of the list with that id, in the order of the list.
\<close>

lemma aliases_loop_good:
  assumes "\<forall>r \<in> set xs. refcontent r \<noteq> None"
  shows "\<exists>m. aliases_loop acc xs = Inr m
      \<and> (\<forall>k. map_of m k
            = (case map_of acc k of
                 Some ks \<Rightarrow> Some (ks @ map ref (filter (\<lambda>r. canonicalId r = k) xs))
               | None \<Rightarrow> (if filter (\<lambda>r. canonicalId r = k) xs = [] then None
                          else Some (map ref (filter (\<lambda>r. canonicalId r = k) xs)))))"
  using assms
proof (induction xs arbitrary: acc)
  case Nil
  then show ?case by (auto split: option.splits)
next
  case (Cons r xs)
  from Cons.prems obtain entry where entry: "refcontent r = Some entry" by auto
  then have cid: "canonicalId r = id' entry" by (simp add: canonicalId_def)
  define old where "old = (case map_of acc (id' entry) of None \<Rightarrow> [] | Some ks \<Rightarrow> ks)"
  define acc1 where
    "acc1 = (if \<not> Map_has acc (id' entry) then Map_set acc (id' entry) [] else acc)"
  define acc2 where "acc2 = Map_set acc1 (id' entry) (old @ [ref r])"
  have get: "Map_get acc1 (id' entry) = Some old"
    by (auto simp: acc1_def old_def Map_get_def Map_has_def map_of_Map_set)
  have step: "aliases_loop acc (r # xs) = aliases_loop acc2 xs"
    using entry get by (simp add: Let_def acc1_def[symmetric] acc2_def)
  have acc2: "map_of acc2 = (map_of acc)(id' entry \<mapsto> old @ [ref r])"
    by (auto simp: acc2_def acc1_def map_of_Map_set)
  from Cons.IH[of acc2] Cons.prems obtain m where m: "aliases_loop acc2 xs = Inr m"
    "\<forall>k. map_of m k
            = (case map_of acc2 k of
                 Some ks \<Rightarrow> Some (ks @ map ref (filter (\<lambda>r. canonicalId r = k) xs))
               | None \<Rightarrow> (if filter (\<lambda>r. canonicalId r = k) xs = [] then None
                          else Some (map ref (filter (\<lambda>r. canonicalId r = k) xs))))"
    by auto
  have "map_of m k
            = (case map_of acc k of
                 Some ks \<Rightarrow> Some (ks @ map ref (filter (\<lambda>r. canonicalId r = k) (r # xs)))
               | None \<Rightarrow> (if filter (\<lambda>r. canonicalId r = k) (r # xs) = [] then None
                          else Some (map ref (filter (\<lambda>r. canonicalId r = k) (r # xs)))))" for k
    using m(2) acc2 cid by (auto simp: old_def split: option.splits)
  with m(1) step show ?case by auto
qed

text \<open>
  C7. For every list of references and every reference \<open>r\<close> of it that
  resolved: of the resolved references with the canonical id of \<open>r\<close>, in the
  order of the list, \<open>getUniqueRefs\<close> keeps the first and no other, and
  \<open>getAliases\<close> holds the keys of all of them, the first included, under that
  id.
\<close>

theorem getUniqueRefs_keeps_first_and_getAliases_all:
  assumes "r \<in> set (goodRefs refs)"
  shows "\<exists>unique aliases first rest.
      getUniqueRefs (goodRefs refs) = Inr unique \<and> getAliases (goodRefs refs) = Inr aliases
    \<and> filter (\<lambda>x. canonicalId x = canonicalId r) (goodRefs refs) = first # rest
    \<and> filter (\<lambda>x. canonicalId x = canonicalId r) unique = [first]
    \<and> Map_get aliases (canonicalId r) = Some (map ref (first # rest))"
proof -
  let ?good = "goodRefs refs" and ?same = "\<lambda>x. canonicalId x = canonicalId r"
  have good: "\<forall>x \<in> set ?good. refcontent x \<noteq> None"
    by (simp add: goodRefs_filter)
  from assms have "filter ?same ?good \<noteq> []"
    by (auto simp: filter_empty_conv)
  then obtain first rest where fr: "filter ?same ?good = first # rest"
    by (cases "filter ?same ?good") auto
  from uniqueRefs_loop_good[OF good, of "[]"] obtain m where m:
    "uniqueRefs_loop [] ?good = Inr m" "distinct (map fst m)"
    "\<forall>(k, v) \<in> set m. canonicalId v = k"
    "\<forall>k. map_of m k = List.find (\<lambda>x. canonicalId x = k) ?good"
    by auto
  have "map_of m (canonicalId r) = Some first"
    using m(4) fr by (simp add: find_filter)
  then have u: "filter ?same (Map_values m) = [first]"
    using filter_values_by_key[OF m(2) m(3), of "canonicalId r"] by (simp add: Map_values_def)
  from aliases_loop_good[OF good, of "[]"] obtain al where al:
    "aliases_loop [] ?good = Inr al"
    "\<forall>k. map_of al k = (if filter (\<lambda>x. canonicalId x = k) ?good = [] then None
                          else Some (map ref (filter (\<lambda>x. canonicalId x = k) ?good)))"
    by auto
  have "Map_get al (canonicalId r) = Some (map ref (first # rest))"
    using al(2) fr by (simp add: Map_get_def)
  with m(1) al(1) u fr show ?thesis
    by (simp add: getUniqueRefs_def getAliases_def)
qed

lemma dup_refs_example:
  "getUniqueRefs (goodRefs dup_refs) = Inr [\<lparr>ref = ''RFC2119'', refcontent = Some rfc_entry\<rparr>]
   \<and> getAliases (goodRefs dup_refs) = Inr [(Some ''rfc2119'', [''RFC2119'', ''rfc2119''])]"
  by (simp add: goodRefs_filter dup_refs_def rfc_entry_def content_def getUniqueRefs_def
      getAliases_def Map_has_def Map_set_def Map_get_def Map_values_def)

theorem getUniqueRefs_keeps_first_and_getAliases_all_witness:
  "\<lparr>ref = ''rfc2119'', refcontent = Some rfc_entry\<rparr> \<in> set (goodRefs dup_refs)
   \<and> (\<exists>first rest.
        filter (\<lambda>x. canonicalId x = Some ''rfc2119'') (goodRefs dup_refs) = first # rest
      \<and> filter (\<lambda>x. canonicalId x = Some ''rfc2119'')
          [\<lparr>ref = ''RFC2119'', refcontent = Some rfc_entry\<rparr>] = [first]
      \<and> Map_get [(Some ''rfc2119'', [''RFC2119'', ''rfc2119''])] (Some ''rfc2119'')
        = Some (map ref (first # rest)))"
proof -
  let ?r = "\<lparr>ref = ''rfc2119'', refcontent = Some rfc_entry\<rparr>"
  have mem: "?r \<in> set (goodRefs dup_refs)"
    by (simp add: goodRefs_filter dup_refs_def)
  have cid: "canonicalId ?r = Some ''rfc2119''"
    by (simp add: canonicalId_def rfc_entry_def content_def)
  from getUniqueRefs_keeps_first_and_getAliases_all [OF mem] dup_refs_example cid mem
  show ?thesis
    by auto
qed


end
